theory Spec2Isabelle
  imports Complex_Main "HOL-Library.Multiset"
begin

section \<open>Strings\<close>

text \<open>
  A Python \<open>str\<close> is modelled as a \<open>string\<close> whose characters are the code points
  0..255 (Latin-1), the range an Isabelle \<open>char\<close> covers. The character classes below are
  the ones CPython uses on that range: \<open>str.isspace\<close> (also the regular expression class
  \<open>\s\<close>, and what \<open>str.split()\<close> and \<open>str.strip()\<close> cut at), \<open>str.isalnum\<close>, the class
  \<open>\w\<close> (alphanumeric or underscore) and \<open>str.lower\<close>.
  Python floats are modelled as reals: rounding error of the binary format is not part of
  the model.
\<close>

definition is_space :: "char \<Rightarrow> bool" where
  "is_space c =
     (let n = (of_char c :: nat)
      in (9 \<le> n \<and> n \<le> 13) \<or> (28 \<le> n \<and> n \<le> 32) \<or> n = 133 \<or> n = 160)"

definition is_alnum :: "char \<Rightarrow> bool" where
  "is_alnum c =
     (let n = (of_char c :: nat)
      in (48 \<le> n \<and> n \<le> 57) \<or> (65 \<le> n \<and> n \<le> 90) \<or> (97 \<le> n \<and> n \<le> 122)
         \<or> n = 170 \<or> n = 178 \<or> n = 179 \<or> n = 181 \<or> n = 185 \<or> n = 186
         \<or> (188 \<le> n \<and> n \<le> 190) \<or> (192 \<le> n \<and> n \<le> 214)
         \<or> (216 \<le> n \<and> n \<le> 246) \<or> (248 \<le> n \<and> n \<le> 255))"

definition is_word :: "char \<Rightarrow> bool" where
  \<comment> \<open>the class \<open>\w\<close>\<close>
  "is_word c = (is_alnum c \<or> c = CHR ''_'')"

definition lower_char :: "char \<Rightarrow> char" where
  "lower_char c =
     (let n = (of_char c :: nat)
      in if (65 \<le> n \<and> n \<le> 90) \<or> (192 \<le> n \<and> n \<le> 222 \<and> n \<noteq> 215)
         then char_of (n + 32) else c)"

definition lower :: "string \<Rightarrow> string" where
  "lower s = map lower_char s"

definition isalnum :: "string \<Rightarrow> bool" where
  \<comment> \<open>\<open>str.isalnum()\<close>: false on the empty string\<close>
  "isalnum s = (s \<noteq> [] \<and> list_all is_alnum s)"

definition strip :: "string \<Rightarrow> string" where
  "strip s = rev (dropWhile is_space (rev (dropWhile is_space s)))"

text \<open>\<open>str.split()\<close> without arguments: the maximal runs of non-whitespace, scanned left to
  right; \<open>cur\<close> is the word being read.\<close>

fun split_scan :: "string \<Rightarrow> string \<Rightarrow> string list" where
  "split_scan cur [] = (if cur = [] then [] else [cur])"
| "split_scan cur (c # cs) =
     (if is_space c
      then (if cur = [] then split_scan [] cs else cur # split_scan [] cs)
      else split_scan (cur @ [c]) cs)"

definition split :: "string \<Rightarrow> string list" where
  "split s = split_scan [] s"

text \<open>\<open>str.split(sep)\<close> with a one-character separator: empty pieces are kept.\<close>

fun split_on_scan :: "char \<Rightarrow> string \<Rightarrow> string \<Rightarrow> string list" where
  "split_on_scan sep cur [] = [cur]"
| "split_on_scan sep cur (c # cs) =
     (if c = sep then cur # split_on_scan sep [] cs else split_on_scan sep (cur @ [c]) cs)"

definition split_on :: "char \<Rightarrow> string \<Rightarrow> string list" where
  "split_on sep s = split_on_scan sep [] s"

definition startswith :: "string \<Rightarrow> string \<Rightarrow> bool" where
  "startswith s sub = (take (length sub) s = sub)"

text \<open>\<open>sub in s\<close> on strings: \<open>sub\<close> occurs in \<open>s\<close> as a contiguous piece.\<close>

fun contains :: "string \<Rightarrow> string \<Rightarrow> bool" where
  "contains [] sub = (sub = [])"
| "contains (c # cs) sub = (startswith (c # cs) sub \<or> contains cs sub)"

text \<open>\<open>s.count(sub)\<close>: the number of non-overlapping occurrences, found left to right;
  \<open>k\<close> characters of the last occurrence are still to be skipped.\<close>

fun count_scan :: "string \<Rightarrow> nat \<Rightarrow> string \<Rightarrow> nat" where
  "count_scan sub k [] = 0"
| "count_scan sub k (c # cs) =
     (if 0 < k then count_scan sub (k - 1) cs
      else if startswith (c # cs) sub then 1 + count_scan sub (length sub - 1) cs
      else count_scan sub 0 cs)"

definition count :: "string \<Rightarrow> string \<Rightarrow> nat" where
  "count s sub = (if sub = [] then length s + 1 else count_scan sub 0 s)"

fun join :: "string \<Rightarrow> string list \<Rightarrow> string" where
  "join sep [] = []"
| "join sep [x] = x"
| "join sep (x # y # xs) = x @ sep @ join sep (y # xs)"

fun str_nat :: "nat \<Rightarrow> string" where
  "str_nat n = (if n < 10 then [char_of (48 + n)] else str_nat (n div 10) @ [char_of (48 + n mod 10)])"

definition str_int :: "int \<Rightarrow> string" where
  "str_int i = (if i < 0 then CHR ''-'' # str_nat (nat (- i)) else str_nat (nat i))"

text \<open>\<open>round(x, 2)\<close>: to the nearest multiple of 1/100, a tie going to the even one.\<close>

definition round_half_even :: "real \<Rightarrow> int" where
  "round_half_even x =
     (let f = \<lfloor>x\<rfloor>; d = x - of_int f
      in if d < 1 / 2 then f else if 1 / 2 < d then f + 1 else if even f then f else f + 1)"

definition round2 :: "real \<Rightarrow> real" where
  "round2 x = of_int (round_half_even (x * 100)) / 100"

section \<open>utils.py\<close>

definition normalize_score_in :: "real \<Rightarrow> real \<Rightarrow> real \<Rightarrow> real" where
  "normalize_score_in score min_val max_val = max min_val (min max_val score)"

definition normalize_score :: "real \<Rightarrow> real" where
  \<comment> \<open>with the default bounds \<open>min_val = 0\<close>, \<open>max_val = 100\<close>, as every caller uses it\<close>
  "normalize_score score = normalize_score_in score 0 100"

definition calculate_weighted_average :: "real list \<Rightarrow> real list \<Rightarrow> real" where
  "calculate_weighted_average scores weights =
     (if scores = [] \<or> weights = [] \<or> length scores \<noteq> length weights then 0
      else let total_weight = sum_list weights
           in if total_weight = 0 then 0
              else let weighted_sum = sum_list (map (\<lambda>(s, w). s * w) (zip scores weights))
                   in weighted_sum / total_weight)"

definition get_word_count_status :: "int \<Rightarrow> int \<Rightarrow> int \<Rightarrow> string" where
  "get_word_count_status word_count min_words max_words =
     (if min_words = 0 \<and> max_words \<ge> 999 then ''no_limit''
      else if word_count < min_words then ''too_short''
      else if word_count > max_words then ''too_long''
      else ''within_range'')"

record validation =
  valid :: bool
  message :: string
  v_word_count :: "nat option"

definition validate_transcript :: "string \<Rightarrow> validation" where
  "validate_transcript transcript =
     (if transcript = [] \<or> strip transcript = []
      then \<lparr>valid = False, message = ''Transcript is empty'', v_word_count = None\<rparr>
      else let word_count = length (split transcript)
           in if word_count < 10
              then \<lparr>valid = False,
                    message = ''Transcript too short ('' @ str_nat word_count
                                @ '' words). Minimum 10 words required.'',
                    v_word_count = None\<rparr>
              else if word_count > 5000
              then \<lparr>valid = False,
                    message = ''Transcript too long ('' @ str_nat word_count
                                @ '' words). Maximum 5000 words allowed.'',
                    v_word_count = None\<rparr>
              else \<lparr>valid = True, message = ''Transcript is valid'',
                    v_word_count = Some word_count\<rparr>)"

definition get_score_category :: "real \<Rightarrow> string" where
  "get_score_category score =
     (if score \<ge> 90 then ''Excellent''
      else if score \<ge> 80 then ''Very Good''
      else if score \<ge> 70 then ''Good''
      else if score \<ge> 60 then ''Satisfactory''
      else if score \<ge> 50 then ''Fair''
      else ''Needs Improvement'')"

definition parse_keywords :: "string option \<Rightarrow> string list" where
  \<comment> \<open>\<open>None\<close> is the missing cell (\<open>pd.isna\<close>)\<close>
  "parse_keywords keyword_string =
     (case keyword_string of
        None \<Rightarrow> []
      | Some ks \<Rightarrow>
          if ks = [] then []
          else let keywords = map strip (split_on CHR '','' ks)
               in filter (\<lambda>k. k \<noteq> []) keywords)"


definition format_feedback ::
  "string \<Rightarrow> real \<Rightarrow> string list \<Rightarrow> string list \<Rightarrow> real \<Rightarrow> nat \<Rightarrow> int \<Rightarrow> int \<Rightarrow> string" where
  "format_feedback criterion score keywords_found keywords_missing semantic_similarity
       word_count min_words max_words =
     (let overall =
            [if score \<ge> 90 then ''Excellent performance.''
             else if score \<ge> 75 then ''Good performance.''
             else if score \<ge> 60 then ''Satisfactory performance.''
             else if score \<ge> 40 then ''Needs improvement.''
             else ''Requires significant improvement.''];
          found_part =
            (if keywords_found \<noteq> []
             then (if length keywords_found > 3
                   then [''Strong keyword coverage with terms like '' @ [CHR 0x27]
                         @ keywords_found ! 0 @ [CHR 0x27] @ '', '' @ [CHR 0x27]
                         @ keywords_found ! 1 @ [CHR 0x27] @ '', and ''
                         @ str_nat (length keywords_found - 2) @ '' more.'']
                   else [''Found keywords: '' @ join '', '' (take 3 keywords_found) @ ''.''])
             else []);
          missing_part =
            (if keywords_missing \<noteq> [] \<and> length keywords_missing \<le> 3
             then [''Consider including: '' @ join '', '' keywords_missing @ ''.'']
             else if keywords_missing \<noteq> []
             then [''Missing '' @ str_nat (length keywords_missing) @ '' suggested keywords.'']
             else []);
          semantic_part =
            (if semantic_similarity \<ge> 75 / 100 then [''Strong semantic alignment with criterion.'']
             else if semantic_similarity \<ge> 5 / 10 then [''Moderate semantic relevance.'']
             else if semantic_similarity < 5 / 10
             then [''Consider addressing this aspect more directly.'']
             else []);
          length_part =
            (if min_words > 0 \<and> max_words < 999
             then (if int word_count < min_words
                   then [''Content is brief ('' @ str_nat word_count
                         @ '' words). Consider expanding (recommended: '' @ str_int min_words
                         @ ''+ words).'']
                   else if int word_count > max_words
                   then [''Content is lengthy ('' @ str_nat word_count
                         @ '' words). Consider being more concise (recommended: under ''
                         @ str_int max_words @ '' words).'']
                   else [''Good length ('' @ str_nat word_count @ '' words).''])
             else [])
      in join '' '' (overall @ found_part @ missing_part @ semantic_part @ length_part))"

section \<open>nlp\_processor.py\<close>

text \<open>
  The NLTK tokenizers and the sentence-embedding model are libraries outside the
  repository, so an \<open>NLPProcessor\<close> carries them as functions: \<open>word_tokenize\<close>,
  \<open>sent_tokenize\<close>, and \<open>cosine t1 t2\<close> for the value
  \<open>np.dot(emb1, emb2) / (norm(emb1) * norm(emb2))\<close> of the two texts' embeddings.
\<close>

record nlp_processor =
  word_tokenize :: "string \<Rightarrow> string list"
  sent_tokenize :: "string \<Rightarrow> string list"
  cosine :: "string \<Rightarrow> string \<Rightarrow> real"

datatype py_error = ZeroDivisionError | Exception string

definition str_error :: "py_error \<Rightarrow> string" where
  "str_error e = (case e of ZeroDivisionError \<Rightarrow> ''division by zero'' | Exception m \<Rightarrow> m)"

text \<open>\<open>re.sub(r'\s+', ' ', text)\<close>: every maximal run of whitespace becomes one space;
  \<open>in_run\<close> says that the scan is inside a run already replaced.\<close>

fun sub_whitespace_runs :: "bool \<Rightarrow> string \<Rightarrow> string" where
  "sub_whitespace_runs in_run [] = []"
| "sub_whitespace_runs in_run (c # cs) =
     (if is_space c
      then (if in_run then sub_whitespace_runs True cs
            else CHR '' '' # sub_whitespace_runs True cs)
      else c # sub_whitespace_runs False cs)"

definition kept_char :: "char \<Rightarrow> bool" where
  \<comment> \<open>the characters that \<open>[^\w\s.,!?-]\<close> does not match\<close>
  "kept_char c =
     (is_word c \<or> is_space c \<or> c = CHR ''.'' \<or> c = CHR '','' \<or> c = CHR ''!''
      \<or> c = CHR ''?'' \<or> c = CHR ''-'')"

definition preprocess_text :: "string \<Rightarrow> string" where
  "preprocess_text text0 =
     (let text1 = sub_whitespace_runs False text0;
          text2 = filter kept_char text1
      in strip text2)"

definition count_words :: "nlp_processor \<Rightarrow> string \<Rightarrow> nat" where
  "count_words nlp text0 =
     (let words = word_tokenize nlp (lower text0) in length (filter isalnum words))"

definition calculate_similarity :: "nlp_processor \<Rightarrow> string \<Rightarrow> string \<Rightarrow> real" where
  "calculate_similarity nlp text1 text2 =
     (let similarity = cosine nlp text1 text2 in max 0 (min 1 similarity))"

record keyword_matches =
  found :: "string list"
  missing :: "string list"
  match_rate :: real

text \<open>One round of the loop over the keywords: the keyword is appended to \<open>found\<close> or to
  \<open>missing\<close>.\<close>

definition keyword_step ::
  "string \<Rightarrow> string set \<Rightarrow> string list \<times> string list \<Rightarrow> string \<Rightarrow> string list \<times> string list" where
  "keyword_step text_lower text_words acc keyword =
     (case acc of (fnd, mis) \<Rightarrow>
        if contains text_lower (lower keyword) then (fnd @ [keyword], mis)
        else if lower keyword \<in> text_words then (fnd @ [keyword], mis)
        else (fnd, mis @ [keyword]))"

definition find_keyword_matches :: "nlp_processor \<Rightarrow> string \<Rightarrow> string list \<Rightarrow> keyword_matches" where
  "find_keyword_matches nlp text0 keywords =
     (let text_lower = lower text0;
          text_words = set (word_tokenize nlp text_lower);
          (fnd, mis) = foldl (keyword_step text_lower text_words) ([], []) keywords
      in \<lparr>found = fnd, missing = mis,
          match_rate = (if keywords \<noteq> [] then real (length fnd) / real (length keywords) else 0)\<rparr>)"

record text_quality =
  tq_word_count :: nat
  sentence_count :: nat
  avg_sentence_length :: real
  unique_words :: nat
  vocabulary_richness :: real

definition analyze_text_quality :: "nlp_processor \<Rightarrow> string \<Rightarrow> py_error + text_quality" where
  "analyze_text_quality nlp text0 =
     (let sentences = sent_tokenize nlp text0;
          words = word_tokenize nlp text0;
          alnum_words = filter isalnum words;
          unique = card (set (map lower alnum_words))
      in if words \<noteq> [] \<and> length alnum_words = 0 then Inl ZeroDivisionError
         else Inr \<lparr>tq_word_count = length alnum_words,
                   sentence_count = length sentences,
                   avg_sentence_length =
                     (if sentences \<noteq> [] then real (length words) / real (length sentences)
                      else 0),
                   unique_words = unique,
                   vocabulary_richness =
                     (if words \<noteq> [] then real unique / real (length alnum_words) else 0)\<rparr>)"


section \<open>scoring\_engine.py\<close>

record rubric_row =
  Criterion :: string
  Description :: string
  Keywords :: "string option"
  Weight :: real
  Min_Words :: int
  Max_Words :: int

record score_breakdown =
  rule_based :: real
  semantic :: real
  rubric_driven :: real

text \<open>The dictionary returned for one criterion; the keys \<open>criterion\<close>, \<open>score\<close>, \<open>weight\<close>
  and \<open>feedback\<close> carry the prefix \<open>cr_\<close> here.\<close>

record criterion_result =
  cr_criterion :: string
  cr_score :: real
  cr_weight :: real
  keywords_found :: "string list"
  keywords_missing :: "string list"
  keyword_match_rate :: real
  semantic_similarity :: real
  word_count_status :: string
  cr_feedback :: string
  breakdown :: score_breakdown

record score_report =
  overall_score :: real
  sr_word_count :: nat
  criteria_scores :: "criterion_result list"
  sr_text_quality :: text_quality

definition rule_based_score :: "string \<Rightarrow> string list \<Rightarrow> int \<Rightarrow> int \<Rightarrow> real" where
  "rule_based_score transcript_lower keywords min_words max_words =
     (let score = 0;
          score =
            (if keywords \<noteq> []
             then let matches = length (filter (\<lambda>kw. contains transcript_lower (lower kw)) keywords);
                      keyword_score = (real matches / real (length keywords)) * 70
                  in score + keyword_score
             else score + 35);
          word_count = int (length (split transcript_lower));
          score =
            (if min_words > 0 \<or> max_words < 999
             then (if min_words \<le> word_count \<and> word_count \<le> max_words then score + 30
                   else if word_count < min_words
                   then let ratio = (if min_words > 0
                                     then real_of_int word_count / real_of_int min_words else 1)
                        in score + 30 * min ratio 1
                   else score + 20)
             else score + 30)
      in normalize_score score)"

text \<open>The two summands of \<open>_rule_based_score\<close>, each as the function computes it: what the
  keyword branch and what the word-count branch add to \<open>score\<close>.\<close>

definition keyword_presence_term :: "string \<Rightarrow> string list \<Rightarrow> real" where
  "keyword_presence_term transcript_lower keywords =
     (if keywords \<noteq> []
      then (real (length (filter (\<lambda>kw. contains transcript_lower (lower kw)) keywords))
              / real (length keywords)) * 70
      else 35)"

definition length_compliance_term :: "int \<Rightarrow> int \<Rightarrow> int \<Rightarrow> real" where
  "length_compliance_term word_count min_words max_words =
     (if min_words > 0 \<or> max_words < 999
      then (if min_words \<le> word_count \<and> word_count \<le> max_words then 30
            else if word_count < min_words
            then let ratio = (if min_words > 0
                              then real_of_int word_count / real_of_int min_words else 1)
                 in 30 * min ratio 1
            else 20)
      else 30)"

definition semantic_score :: "nlp_processor \<Rightarrow> string \<Rightarrow> string \<Rightarrow> real \<times> real" where
  "semantic_score nlp transcript description =
     (let similarity = calculate_similarity nlp transcript description;
          score = (if similarity \<ge> 7 / 10 then 70 + (similarity - 7 / 10) * 100
                   else if similarity \<ge> 4 / 10 then 40 + (similarity - 4 / 10) * 100
                   else similarity * 100)
      in (normalize_score score, similarity))"

definition rubric_driven_score :: "string \<Rightarrow> string list \<Rightarrow> real" where
  "rubric_driven_score transcript_lower keywords =
     (if keywords = [] then 50
      else let score = 0;
               total_occurrences = sum_list (map (\<lambda>kw. count transcript_lower (lower kw)) keywords);
               score = (if total_occurrences > 0
                        then let density_score = min 50 (total_occurrences * 10)
                             in score + real density_score
                        else score);
               present_keywords = length (filter (\<lambda>kw. contains transcript_lower (lower kw)) keywords);
               coverage = real present_keywords / real (length keywords);
               score = score + coverage * 50
           in normalize_score score)"

definition score_criterion ::
  "nlp_processor \<Rightarrow> string \<Rightarrow> string \<Rightarrow> string \<Rightarrow> string \<Rightarrow> string list \<Rightarrow> real \<Rightarrow> int \<Rightarrow> int
     \<Rightarrow> criterion_result" where
  "score_criterion nlp transcript transcript_lower criterion_name description keywords weight
       min_words max_words =
     (let rule_score = rule_based_score transcript_lower keywords min_words max_words;
          (semantic_sc, similarity) = semantic_score nlp transcript description;
          rubric_score = rubric_driven_score transcript_lower keywords;
          combined_score = (rule_score * (4 / 10)) + (semantic_sc * (4 / 10)) + (rubric_score * (2 / 10));
          final_score = normalize_score combined_score;
          matches = find_keyword_matches nlp transcript keywords;
          word_count = count_words nlp transcript;
          status = get_word_count_status (int word_count) min_words max_words;
          fb = format_feedback criterion_name final_score (found matches) (missing matches)
                 similarity word_count min_words max_words
      in \<lparr>cr_criterion = criterion_name,
          cr_score = round2 final_score,
          cr_weight = weight,
          keywords_found = found matches,
          keywords_missing = missing matches,
          keyword_match_rate = round2 (match_rate matches),
          semantic_similarity = round2 similarity,
          word_count_status = status,
          cr_feedback = fb,
          breakdown = \<lparr>rule_based = round2 rule_score, semantic = round2 semantic_sc,
                        rubric_driven = round2 rubric_score\<rparr>\<rparr>)"

text \<open>\<open>ScoringEngine.score_transcript\<close>; the engine is its NLP processor and its rubric.\<close>

definition score_transcript :: "nlp_processor \<Rightarrow> rubric_row list \<Rightarrow> string \<Rightarrow> py_error + score_report" where
  "score_transcript nlp rubric transcript0 =
     (let transcript = preprocess_text transcript0;
          transcript_lower = lower transcript
      in case analyze_text_quality nlp transcript of
           Inl e \<Rightarrow> Inl e
         | Inr quality \<Rightarrow>
             let results =
                   map (\<lambda>row. score_criterion nlp transcript transcript_lower (Criterion row)
                                 (Description row) (parse_keywords (Keywords row)) (Weight row)
                                 (Min_Words row) (Max_Words row)) rubric;
                 scores = map cr_score results;
                 weights = map cr_weight results;
                 overall = calculate_weighted_average scores weights
             in Inr \<lparr>overall_score = round2 overall,
                      sr_word_count = tq_word_count quality,
                      criteria_scores = results,
                      sr_text_quality = quality\<rparr>)"

section \<open>app.py\<close>

text \<open>
  The \<open>/api/score\<close> handler. The request body is \<open>None\<close> when it has no \<open>transcript\<close>;
  \<open>engine\<close> is what \<open>init_scoring_engine\<close> yields: an exception, or the loaded engine's
  \<open>score_transcript\<close>. The handler's answer comes with the list of the transcripts it
  handed to the engine; time stamps are left out.
\<close>

datatype api_response =
  ErrorResponse nat string
| ScoreResponse score_report string

definition api_score_transcript ::
  "(py_error + (string \<Rightarrow> py_error + score_report)) \<Rightarrow> string option \<Rightarrow> api_response \<times> string list" where
  "api_score_transcript engine body =
     (case body of
        None \<Rightarrow> (ErrorResponse 400 ''Missing transcript in request body'', [])
      | Some transcript \<Rightarrow>
          let validation = validate_transcript transcript
          in if \<not> valid validation then (ErrorResponse 400 (message validation), [])
             else case engine of
                    Inl e \<Rightarrow> (ErrorResponse 500 (''Internal server error: '' @ str_error e), [])
                  | Inr score \<Rightarrow>
                      (case score transcript of
                         Inl e \<Rightarrow> (ErrorResponse 500 (''Internal server error: '' @ str_error e),
                                    [transcript])
                       | Inr result \<Rightarrow>
                           (ScoreResponse result (get_score_category (overall_score result)),
                            [transcript])))"


section \<open>Properties\<close>

subsection \<open>Strings\<close>

text \<open>The string operations do what their Python counterparts are specified to do:
  \<open>sub in s\<close> finds a contiguous piece, and a string has no words exactly when nothing is
  left of it after trimming.\<close>

lemma startswith_iff: "startswith s sub = (\<exists>ss. s = sub @ ss)"
proof
  assume "startswith s sub"
  then have "s = sub @ drop (length sub) s"
    unfolding startswith_def by (metis append_take_drop_id)
  then show "\<exists>ss. s = sub @ ss" ..
next
  assume "\<exists>ss. s = sub @ ss"
  then show "startswith s sub" by (auto simp: startswith_def)
qed

lemma contains_iff: "contains s sub = (\<exists>ps ss. s = ps @ sub @ ss)"
proof (induction s)
  case Nil
  then show ?case by auto
next
  case (Cons c cs)
  show ?case
  proof
    assume "contains (c # cs) sub"
    then consider "startswith (c # cs) sub" | "contains cs sub" by auto
    then show "\<exists>ps ss. c # cs = ps @ sub @ ss"
    proof cases
      case 1
      then obtain ss where "c # cs = [] @ sub @ ss" by (auto simp: startswith_iff)
      then show ?thesis by blast
    next
      case 2
      then obtain ps ss where "cs = ps @ sub @ ss" using Cons.IH by auto
      then have "c # cs = (c # ps) @ sub @ ss" by simp
      then show ?thesis by blast
    qed
  next
    assume "\<exists>ps ss. c # cs = ps @ sub @ ss"
    then obtain ps ss where e: "c # cs = ps @ sub @ ss" by auto
    show "contains (c # cs) sub"
    proof (cases ps)
      case Nil
      then have "startswith (c # cs) sub" using e by (auto simp: startswith_iff)
      then show ?thesis by simp
    next
      case (Cons p ps')
      then have "cs = ps' @ sub @ ss" using e by simp
      then have "contains cs sub" using Cons.IH by blast
      then show ?thesis by simp
    qed
  qed
qed

lemma split_scan_Nil: "(split_scan cur s = []) = (cur = [] \<and> (\<forall>c\<in>set s. is_space c))"
  by (induction cur s rule: split_scan.induct) auto

lemma strip_empty_iff_split: "(strip s = []) = (split s = [])"
proof -
  have "(strip s = []) = (\<forall>c\<in>set s. is_space c)"
  proof
    assume "strip s = []"
    then have "dropWhile is_space (rev (dropWhile is_space s)) = []" by (simp add: strip_def)
    then have "\<forall>c\<in>set (dropWhile is_space s). is_space c" by (simp add: dropWhile_eq_Nil_conv)
    moreover have "dropWhile is_space s \<noteq> [] \<Longrightarrow> \<not> is_space (hd (dropWhile is_space s))"
      by (rule hd_dropWhile)
    ultimately have "dropWhile is_space s = []" by (metis hd_in_set)
    then show "\<forall>c\<in>set s. is_space c" by (simp add: dropWhile_eq_Nil_conv)
  next
    assume "\<forall>c\<in>set s. is_space c"
    then have "dropWhile is_space s = []" by (simp only: dropWhile_eq_Nil_conv)
    then show "strip s = []" by (simp only: strip_def rev.simps(1) dropWhile.simps(1))
  qed
  then show ?thesis by (simp add: split_def split_scan_Nil)
qed

subsection \<open>Clamping\<close>

lemma normalize_score_bounds: "0 \<le> normalize_score x \<and> normalize_score x \<le> 100"
  by (simp add: normalize_score_def normalize_score_in_def)

lemma normalize_score_id: "0 \<le> x \<Longrightarrow> x \<le> 100 \<Longrightarrow> normalize_score x = x"
  by (simp add: normalize_score_def normalize_score_in_def)

subsection \<open>The semantic sub-score\<close>



subsection \<open>The weighted average\<close>





subsection \<open>The word-count status\<close>

text \<open>
  Claim C7, amended. For \<open>0 \<le> min_words \<le> max_words\<close>, a word count of exactly \<open>min_words\<close>
  is never \<open>too_short\<close>: it is \<open>within_range\<close>, except under the bounds \<open>min_words = 0\<close> and
  \<open>max_words \<ge> 999\<close> that stand for no limit, where the status is \<open>no_limit\<close>.
\<close>

theorem word_count_status_boundary:
  assumes "0 \<le> min_words" "min_words \<le> max_words"
  shows "get_word_count_status min_words min_words max_words
           = (if min_words = 0 \<and> 999 \<le> max_words then ''no_limit'' else ''within_range'')
         \<and> get_word_count_status min_words min_words max_words \<noteq> ''too_short''"
  using assms by (simp add: get_word_count_status_def)

theorem word_count_status_boundary_witness:
  "get_word_count_status 10 10 50 = ''within_range'' \<and> get_word_count_status 0 0 1000 = ''no_limit''"
  using word_count_status_boundary [of 10 50] word_count_status_boundary [of 0 1000] by simp

theorem word_count_status_boundary_counterexample:
  "(0::int) \<le> 0 \<and> (0::int) \<le> 999 \<and> get_word_count_status 0 0 999 = ''no_limit''
   \<and> get_word_count_status 0 0 999 \<noteq> ''within_range''"
  by (simp add: get_word_count_status_def)

subsection \<open>The rule-based sub-score\<close>

lemma scaled_ratio_le:
  fixes a b c :: real
  assumes "a \<le> b" "0 < b" "0 \<le> c"
  shows "c * a / b \<le> c"
proof -
  have "c * a \<le> c * b" using assms by (simp add: mult_left_mono)
  then show ?thesis using assms by (simp add: pos_divide_le_eq)
qed

lemma keyword_presence_term_bounds:
  "0 \<le> keyword_presence_term tlow kws \<and> keyword_presence_term tlow kws \<le> 70"
proof (cases "kws = []")
  case True
  then show ?thesis by (simp add: keyword_presence_term_def)
next
  case False
  let ?m = "length (filter (\<lambda>kw. contains tlow (lower kw)) kws)"
  have "?m \<le> length kws" by (rule length_filter_le)
  then have "70 * real ?m / real (length kws) \<le> 70"
    using False by (intro scaled_ratio_le) simp_all
  then show ?thesis using False by (simp add: keyword_presence_term_def mult.commute)
qed

lemma length_compliance_term_bounds:
  "0 \<le> wc \<Longrightarrow> 0 \<le> length_compliance_term wc mn mx \<and> length_compliance_term wc mn mx \<le> 30"
  by (auto simp: length_compliance_term_def min_def Let_def intro!: scaled_ratio_le)

lemma rule_based_score_sum:
  "rule_based_score tlow kws mn mx
     = normalize_score (keyword_presence_term tlow kws
                        + length_compliance_term (int (length (split tlow))) mn mx)"
  by (auto simp: rule_based_score_def keyword_presence_term_def length_compliance_term_def Let_def)

lemma rule_based_score_split:
  "rule_based_score tlow kws mn mx
     = keyword_presence_term tlow kws + length_compliance_term (int (length (split tlow))) mn mx"
proof -
  have "0 \<le> int (length (split tlow))" by simp
  note b = length_compliance_term_bounds [OF this, of mn mx] keyword_presence_term_bounds [of tlow kws]
  show ?thesis unfolding rule_based_score_sum
    by (rule normalize_score_id) (use b in linarith)+
qed

text \<open>
  Claim C3. For \<open>0 \<le> min_words \<le> max_words\<close>, the length term of \<open>_rule_based_score\<close> (the
  score without its keyword term) is 30 whenever \<open>min_words = 0\<close> and \<open>max_words \<ge> 999\<close>;
  otherwise it is 30 when the word count is within the bounds,
  \<open>30 * min (word_count / min_words) 1\<close> when it is below \<open>min_words\<close>, and 20 when it is above
  \<open>max_words\<close>, however far.
\<close>

theorem rule_based_length_term:
  assumes "0 \<le> min_words" "min_words \<le> max_words"
  shows "let word_count = int (length (split transcript_lower));
             length_term = rule_based_score transcript_lower keywords min_words max_words
                             - keyword_presence_term transcript_lower keywords
         in (min_words = 0 \<and> 999 \<le> max_words \<longrightarrow> length_term = 30)
          \<and> (min_words \<le> word_count \<and> word_count \<le> max_words \<longrightarrow> length_term = 30)
          \<and> (word_count < min_words \<longrightarrow>
                length_term = 30 * min (real_of_int word_count / real_of_int min_words) 1)
          \<and> (max_words < word_count \<and> \<not> (min_words = 0 \<and> 999 \<le> max_words) \<longrightarrow>
                length_term = 20)"
  using assms
  by (auto simp: rule_based_score_split Let_def length_compliance_term_def)

theorem rule_based_length_term_witness:
  "rule_based_score ''a b c'' [] 0 1000 - keyword_presence_term ''a b c'' [] = 30
   \<and> rule_based_score ''a b c'' [] 2 5 - keyword_presence_term ''a b c'' [] = 30
   \<and> rule_based_score ''a b c'' [] 6 20 - keyword_presence_term ''a b c'' [] = 15
   \<and> rule_based_score ''a b c'' [] 1 2 - keyword_presence_term ''a b c'' [] = 20"
proof -
  have wc: "int (length (split ''a b c'')) = 3" by code_simp
  show ?thesis
    using rule_based_length_term [of 0 1000 "''a b c''" "[]"]
          rule_based_length_term [of 2 5 "''a b c''" "[]"]
          rule_based_length_term [of 6 20 "''a b c''" "[]"]
          rule_based_length_term [of 1 2 "''a b c''" "[]"]
    unfolding Let_def wc by simp
qed

subsection \<open>The keyword matcher\<close>

lemma foldl_keyword_step:
  "foldl (keyword_step tlow tw) (fnd, mis) kws
     = (fnd @ filter (\<lambda>k. contains tlow (lower k) \<or> lower k \<in> tw) kws,
        mis @ filter (\<lambda>k. \<not> (contains tlow (lower k) \<or> lower k \<in> tw)) kws)"
  by (induction kws arbitrary: fnd mis) (auto simp: keyword_step_def)

lemma find_keyword_matches_filter:
  "find_keyword_matches nlp txt kws =
     \<lparr>found = filter (\<lambda>k. contains (lower txt) (lower k) \<or> lower k \<in> set (word_tokenize nlp (lower txt))) kws,
      missing = filter (\<lambda>k. \<not> (contains (lower txt) (lower k) \<or> lower k \<in> set (word_tokenize nlp (lower txt)))) kws,
      match_rate = (if kws \<noteq> []
                    then real (length (filter (\<lambda>k. contains (lower txt) (lower k) \<or> lower k \<in> set (word_tokenize nlp (lower txt))) kws))
                           / real (length kws)
                    else 0)\<rparr>"
  by (simp add: find_keyword_matches_def Let_def foldl_keyword_step)

lemma filter_all_length: "(length (filter P xs) = length xs) = (\<forall>x\<in>set xs. P x)"
  by (metis filter_id_conv length_filter_le filter_True le_antisym length_filter_less not_less_iff_gr_or_eq order_refl)

lemma ratio_one_iff: "ys \<noteq> [] \<Longrightarrow> (real (length (filter P ys)) / real (length ys) = 1) = (\<forall>x\<in>set ys. P x)"
  using filter_all_length [of P ys] by (simp add: eq_commute [of "length ys"])

lemma filter_partition:
  "set (filter P xs) \<union> set (filter (\<lambda>x. \<not> P x) xs) = set xs
   \<and> set (filter P xs) \<inter> set (filter (\<lambda>x. \<not> P x) xs) = {}
   \<and> length (filter P xs) + length (filter (\<lambda>x. \<not> P x) xs) = length xs
   \<and> mset (filter P xs) + mset (filter (\<lambda>x. \<not> P x) xs) = mset xs"
  by (auto simp: sum_length_filter_compl)

text \<open>
  Claim C4. \<open>find_keyword_matches\<close> returns as \<open>found\<close> the keywords that occur in the text
  (lower-cased, as a substring or as a token) and as \<open>missing\<close> the others, both in the
  order of the input; \<open>match_rate\<close> is \<open>|found| / |keywords|\<close>, 0 for an empty keyword list,
  and for a non-empty list it is 1 exactly when every keyword occurs.
\<close>

theorem find_keyword_matches_rate:
  "let r = find_keyword_matches nlp txt keywords;
       present = (\<lambda>k. contains (lower txt) (lower k) \<or> lower k \<in> set (word_tokenize nlp (lower txt)))
   in found r = filter present keywords
    \<and> missing r = filter (\<lambda>k. \<not> present k) keywords
    \<and> match_rate r = (if keywords = [] then 0
                      else real (length (found r)) / real (length keywords))
    \<and> (keywords \<noteq> [] \<longrightarrow> (match_rate r = 1) = (\<forall>k\<in>set keywords. present k))"
proof -
  define present where
    "present = (\<lambda>k. contains (lower txt) (lower k) \<or> lower k \<in> set (word_tokenize nlp (lower txt)))"
  have r: "find_keyword_matches nlp txt keywords =
     \<lparr>found = filter present keywords, missing = filter (\<lambda>k. \<not> present k) keywords,
      match_rate = (if keywords \<noteq> []
                    then real (length (filter present keywords)) / real (length keywords) else 0)\<rparr>"
    unfolding present_def by (rule find_keyword_matches_filter)
  show ?thesis
    unfolding Let_def present_def [symmetric] r
    using ratio_one_iff [of "keywords" present] by simp
qed

theorem find_keyword_matches_rate_witness:
  "match_rate (find_keyword_matches \<lparr>word_tokenize = split, sent_tokenize = split, cosine = (\<lambda>a b. 1 / 2)\<rparr>
       ''Hello my name'' [''hello'', ''NAME'']) = 1
   \<and> match_rate (find_keyword_matches \<lparr>word_tokenize = split, sent_tokenize = split, cosine = (\<lambda>a b. 1 / 2)\<rparr>
       ''Hello my name'' []) = 0"
proof -
  let ?nlp = "\<lparr>word_tokenize = split, sent_tokenize = split, cosine = (\<lambda>a b. 1 / 2)\<rparr>"
  have a: "contains (lower ''Hello my name'') (lower ''hello'')" by code_simp
  have b: "contains (lower ''Hello my name'') (lower ''NAME'')" by code_simp
  show ?thesis
    using find_keyword_matches_rate [of ?nlp "''Hello my name''" "[''hello'', ''NAME'']"]
          find_keyword_matches_rate [of ?nlp "''Hello my name''" "[]"] a b
    unfolding Let_def by simp
qed

text \<open>
  Claim C10. \<open>found\<close> and \<open>missing\<close> partition the keyword list: together they hold exactly
  the input keywords, no keyword is in both, and their lengths add up to the length of the
  input.
\<close>

theorem find_keyword_matches_partition:
  "let r = find_keyword_matches nlp txt keywords
   in set (found r) \<union> set (missing r) = set keywords
    \<and> set (found r) \<inter> set (missing r) = {}
    \<and> length (found r) + length (missing r) = length keywords
    \<and> mset (found r) + mset (missing r) = mset keywords"
proof -
  define present where
    "present = (\<lambda>k. contains (lower txt) (lower k) \<or> lower k \<in> set (word_tokenize nlp (lower txt)))"
  have r: "find_keyword_matches nlp txt keywords =
     \<lparr>found = filter present keywords, missing = filter (\<lambda>k. \<not> present k) keywords,
      match_rate = (if keywords \<noteq> []
                    then real (length (filter present keywords)) / real (length keywords) else 0)\<rparr>"
    unfolding present_def by (rule find_keyword_matches_filter)
  show ?thesis
    unfolding Let_def r using filter_partition [where P = present and xs = "keywords"] by simp
qed

theorem find_keyword_matches_partition_witness:
  "found (find_keyword_matches \<lparr>word_tokenize = split, sent_tokenize = split, cosine = (\<lambda>a b. 1 / 2)\<rparr>
       ''Hello my name'' [''hello'', ''goal'', ''name'']) = [''hello'', ''name'']
   \<and> missing (find_keyword_matches \<lparr>word_tokenize = split, sent_tokenize = split, cosine = (\<lambda>a b. 1 / 2)\<rparr>
       ''Hello my name'' [''hello'', ''goal'', ''name'']) = [''goal'']
   \<and> length (found (find_keyword_matches \<lparr>word_tokenize = split, sent_tokenize = split, cosine = (\<lambda>a b. 1 / 2)\<rparr>
       ''Hello my name'' [''hello'', ''goal'', ''name'']))
     + length (missing (find_keyword_matches \<lparr>word_tokenize = split, sent_tokenize = split, cosine = (\<lambda>a b. 1 / 2)\<rparr>
       ''Hello my name'' [''hello'', ''goal'', ''name''])) = 3"
proof -
  let ?nlp = "\<lparr>word_tokenize = split, sent_tokenize = split, cosine = (\<lambda>a b. 1 / 2)\<rparr>"
  let ?r = "find_keyword_matches ?nlp ''Hello my name'' [''hello'', ''goal'', ''name'']"
  have f: "found ?r = [''hello'', ''name'']" by code_simp
  have m: "missing ?r = [''goal'']" by code_simp
  have "length (found ?r) + length (missing ?r) = length [''hello'', ''goal'', ''name'']"
    using find_keyword_matches_partition [of ?nlp "''Hello my name''" "[''hello'', ''goal'', ''name'']"]
    unfolding Let_def by (elim conjE)
  then show ?thesis using f m by simp
qed

subsection \<open>Validation\<close>

lemma validate_transcript_message_nonempty: "message (validate_transcript t) \<noteq> []"
  by (simp add: validate_transcript_def Let_def)

text \<open>
  Claim C6. \<open>validate_transcript\<close> marks a transcript invalid exactly when it is empty
  after trimming, has fewer than 10 words or has more than 5000 words; it always gives a
  message, and on an invalid transcript the score endpoint answers 400 with that message
  and hands nothing to the scoring engine, while a valid transcript is handed to a loaded
  engine.
\<close>

theorem validate_transcript_exact:
  "(\<not> valid (validate_transcript t))
      = (strip t = [] \<or> length (split t) < 10 \<or> 5000 < length (split t))
   \<and> message (validate_transcript t) \<noteq> []
   \<and> (\<not> valid (validate_transcript t) \<longrightarrow>
        api_score_transcript engine (Some t)
          = (ErrorResponse 400 (message (validate_transcript t)), []))
   \<and> (valid (validate_transcript t) \<longrightarrow>
        (\<forall>score. engine = Inr score \<longrightarrow> snd (api_score_transcript engine (Some t)) = [t]))"
proof (intro conjI impI allI)
  show "(\<not> valid (validate_transcript t))
      = (strip t = [] \<or> length (split t) < 10 \<or> 5000 < length (split t))"
    by (auto simp: validate_transcript_def Let_def strip_def)
  show "message (validate_transcript t) \<noteq> []"
    by (rule validate_transcript_message_nonempty)
  show "api_score_transcript engine (Some t)
          = (ErrorResponse 400 (message (validate_transcript t)), [])"
    if "\<not> valid (validate_transcript t)"
    using that by (simp add: api_score_transcript_def Let_def)
  show "snd (api_score_transcript engine (Some t)) = [t]"
    if "valid (validate_transcript t)" "engine = Inr score" for score
    using that by (simp add: api_score_transcript_def Let_def split: sum.splits)
qed

theorem validate_transcript_exact_witness:
  "api_score_transcript (Inr (\<lambda>t. Inl ZeroDivisionError)) (Some ''too short'')
     = (ErrorResponse 400 ''Transcript too short (2 words). Minimum 10 words required.'', [])
   \<and> api_score_transcript (Inr (\<lambda>t. Inl ZeroDivisionError)) (Some ''  '')
     = (ErrorResponse 400 ''Transcript is empty'', [])
   \<and> snd (api_score_transcript (Inr (\<lambda>t. Inl ZeroDivisionError)) (Some ''a b c d e f g h i j''))
     = [''a b c d e f g h i j'']"
proof -
  have v1: "\<not> valid (validate_transcript ''too short'')" by code_simp
  have m1: "message (validate_transcript ''too short'')
              = ''Transcript too short (2 words). Minimum 10 words required.''" by code_simp
  have v2: "\<not> valid (validate_transcript ''  '')" by code_simp
  have m2: "message (validate_transcript ''  '') = ''Transcript is empty''" by code_simp
  have v3: "valid (validate_transcript ''a b c d e f g h i j'')" by code_simp
  note A = validate_transcript_exact [of "''too short''" "Inr (\<lambda>t. Inl ZeroDivisionError)"]
  note B = validate_transcript_exact [of "''  ''" "Inr (\<lambda>t. Inl ZeroDivisionError)"]
  note C = validate_transcript_exact [of "''a b c d e f g h i j''" "Inr (\<lambda>t. Inl ZeroDivisionError)"]
  have 1: "api_score_transcript (Inr (\<lambda>t. Inl ZeroDivisionError)) (Some ''too short'')
     = (ErrorResponse 400 ''Transcript too short (2 words). Minimum 10 words required.'', [])"
    using A [THEN conjunct2, THEN conjunct2, THEN conjunct1, THEN mp, OF v1] unfolding m1 .
  have 2: "api_score_transcript (Inr (\<lambda>t. Inl ZeroDivisionError)) (Some ''  '')
     = (ErrorResponse 400 ''Transcript is empty'', [])"
    using B [THEN conjunct2, THEN conjunct2, THEN conjunct1, THEN mp, OF v2] unfolding m2 .
  have 3: "snd (api_score_transcript (Inr (\<lambda>t. Inl ZeroDivisionError)) (Some ''a b c d e f g h i j''))
     = [''a b c d e f g h i j'']"
    using C [THEN conjunct2, THEN conjunct2, THEN conjunct2, THEN mp, OF v3] by blast
  show ?thesis using 1 2 3 by blast
qed

subsection \<open>Text preprocessing\<close>








lemma alnum_not_space: "is_alnum c \<Longrightarrow> \<not> is_space c"
  by (auto simp: is_alnum_def is_space_def Let_def)




lemma preprocess_text_double_space: "preprocess_text ''a @ b'' = ''a  b''"
  by code_simp

subsection \<open>Text quality\<close>

text \<open>
  Claim C8. \<open>analyze_text_quality\<close> is not total: on a text whose tokens are all
  punctuation, such as \<open>!\<close> (one token, not alphanumeric), the vocabulary richness divides
  by the number of alphanumeric tokens, which is 0, behind a guard that only asks for some
  token.
\<close>

theorem analyze_text_quality_punctuation_only:
  "analyze_text_quality \<lparr>word_tokenize = (\<lambda>s. [''!'']), sent_tokenize = (\<lambda>s. [''!'']), cosine = (\<lambda>a b. 1)\<rparr> ''!''
     = Inl ZeroDivisionError"
  by (simp add: analyze_text_quality_def isalnum_def is_alnum_def)

lemma analyze_text_quality_raises:
  "analyze_text_quality nlp t = Inl e \<longleftrightarrow>
     e = ZeroDivisionError \<and> word_tokenize nlp t \<noteq> [] \<and> filter isalnum (word_tokenize nlp t) = []"
  by (auto simp: analyze_text_quality_def Let_def)

lemma analyze_text_quality_empty:
  "word_tokenize nlp [] = [] \<Longrightarrow> sent_tokenize nlp [] = [] \<Longrightarrow>
   analyze_text_quality nlp [] = Inr \<lparr>tq_word_count = 0, sentence_count = 0, avg_sentence_length = 0,
        unique_words = 0, vocabulary_richness = 0\<rparr>"
  by (simp add: analyze_text_quality_def)

lemma analyze_text_quality_richness:
  "analyze_text_quality nlp t = Inr q \<Longrightarrow>
   vocabulary_richness q
     = (if word_tokenize nlp t = [] then 0
        else real (card (set (map lower (filter isalnum (word_tokenize nlp t)))))
               / real (length (filter isalnum (word_tokenize nlp t))))"
  by (auto simp: analyze_text_quality_def Let_def split: if_splits)

lemma api_score_punctuation_only:
  "api_score_transcript
     (Inr (score_transcript \<lparr>word_tokenize = split, sent_tokenize = split, cosine = (\<lambda>a b. 1)\<rparr> []))
     (Some ''! ! ! ! ! ! ! ! ! !'')
   = (ErrorResponse 500 ''Internal server error: division by zero'', [''! ! ! ! ! ! ! ! ! !''])"
  by code_simp

subsection \<open>Scores stay in range\<close>

lemma round_half_even_bounds:
  assumes "0 \<le> x" "x \<le> of_int n"
  shows "0 \<le> round_half_even x \<and> round_half_even x \<le> n"
proof -
  have f0: "0 \<le> \<lfloor>x\<rfloor>" using assms(1) by simp
  have fn: "\<lfloor>x\<rfloor> \<le> n" using assms(2) by (simp add: floor_le_iff)
  have up: "\<lfloor>x\<rfloor> + 1 \<le> n" if "x - of_int \<lfloor>x\<rfloor> \<noteq> 0"
  proof -
    have "of_int \<lfloor>x\<rfloor> < x" using that of_int_floor_le [of x] by linarith
    then have "of_int \<lfloor>x\<rfloor> < (of_int n :: real)" using assms(2) by linarith
    then have "\<lfloor>x\<rfloor> < n" by simp
    then show ?thesis by simp
  qed
  show ?thesis
    unfolding round_half_even_def Let_def using f0 fn up by auto
qed

lemma round2_bounds:
  assumes "0 \<le> x" "x \<le> 100"
  shows "0 \<le> round2 x \<and> round2 x \<le> 100"
proof -
  have "0 \<le> x * 100" "x * 100 \<le> of_int 10000" using assms by simp_all
  then have "0 \<le> round_half_even (x * 100) \<and> round_half_even (x * 100) \<le> 10000"
    by (rule round_half_even_bounds)
  then have "0 \<le> (of_int (round_half_even (x * 100)) :: real)"
        and "(of_int (round_half_even (x * 100)) :: real) \<le> 10000"
    by simp_all
  then show ?thesis by (simp add: round2_def)
qed

lemma semantic_score_bounds:
  "0 \<le> fst (semantic_score nlp t d) \<and> fst (semantic_score nlp t d) \<le> 100"
  by (simp add: semantic_score_def Let_def normalize_score_bounds)

lemma rule_based_score_bounds:
  "0 \<le> rule_based_score tlow kws mn mx \<and> rule_based_score tlow kws mn mx \<le> 100"
  by (simp add: rule_based_score_sum normalize_score_bounds)

lemma rubric_driven_score_bounds:
  "0 \<le> rubric_driven_score tlow kws \<and> rubric_driven_score tlow kws \<le> 100"
  by (simp add: rubric_driven_score_def Let_def normalize_score_bounds)

lemma score_criterion_fields:
  "cr_score (score_criterion nlp t tlow name d kws w mn mx)
     = round2 (normalize_score (rule_based_score tlow kws mn mx * (4 / 10)
                                + fst (semantic_score nlp t d) * (4 / 10)
                                + rubric_driven_score tlow kws * (2 / 10)))"
  "cr_weight (score_criterion nlp t tlow name d kws w mn mx) = w"
  "breakdown (score_criterion nlp t tlow name d kws w mn mx)
     = \<lparr>rule_based = round2 (rule_based_score tlow kws mn mx),
        semantic = round2 (fst (semantic_score nlp t d)),
        rubric_driven = round2 (rubric_driven_score tlow kws)\<rparr>"
  by (simp_all add: score_criterion_def Let_def split: prod.splits)

lemma score_criterion_bounds:
  "0 \<le> cr_score (score_criterion nlp t tlow name d kws w mn mx)
   \<and> cr_score (score_criterion nlp t tlow name d kws w mn mx) \<le> 100"
  unfolding score_criterion_fields
  using normalize_score_bounds by (intro round2_bounds) auto

lemma weighted_sum_bounds:
  fixes ps :: "(real \<times> real) list"
  assumes "\<forall>(s, w)\<in>set ps. 0 \<le> s \<and> s \<le> 100 \<and> 0 \<le> w"
  shows "0 \<le> sum_list (map (\<lambda>(s, w). s * w) ps)
       \<and> sum_list (map (\<lambda>(s, w). s * w) ps) \<le> 100 * sum_list (map snd ps)"
  using assms
proof (induction ps)
  case Nil
  then show ?case by simp
next
  case (Cons p ps)
  obtain s w where p: "p = (s, w)" by (cases p)
  have sw: "0 \<le> s" "s \<le> 100" "0 \<le> w" using Cons.prems p by auto
  have "0 \<le> s * w" "s * w \<le> 100 * w"
    using sw by (simp_all add: mult_right_mono)
  moreover have "0 \<le> sum_list (map (\<lambda>(s, w). s * w) ps)
       \<and> sum_list (map (\<lambda>(s, w). s * w) ps) \<le> 100 * sum_list (map snd ps)"
    using Cons by simp
  ultimately show ?case using p by (simp add: algebra_simps)
qed

lemma calculate_weighted_average_bounds:
  assumes s: "\<forall>s\<in>set scores. 0 \<le> s \<and> s \<le> 100" and w: "\<forall>w\<in>set weights. 0 \<le> w"
  shows "0 \<le> calculate_weighted_average scores weights
       \<and> calculate_weighted_average scores weights \<le> 100"
proof (cases "scores = [] \<or> weights = [] \<or> length scores \<noteq> length weights \<or> sum_list weights = 0")
  case True
  then show ?thesis by (auto simp: calculate_weighted_average_def)
next
  case False
  then have len: "length scores = length weights" and nz: "sum_list weights \<noteq> 0" by auto
  have "0 \<le> sum_list weights" using w by (simp add: sum_list_nonneg)
  with nz have pos: "0 < sum_list weights" by simp
  have "\<forall>(s, w)\<in>set (zip scores weights). 0 \<le> s \<and> s \<le> 100 \<and> 0 \<le> w"
    using s w by (auto dest: set_zip_leftD set_zip_rightD)
  from weighted_sum_bounds [OF this] len
  have b: "0 \<le> sum_list (map (\<lambda>(s, w). s * w) (zip scores weights))"
          "sum_list (map (\<lambda>(s, w). s * w) (zip scores weights)) \<le> 100 * sum_list weights"
    by simp_all
  have eq: "calculate_weighted_average scores weights
          = sum_list (map (\<lambda>(s, w). s * w) (zip scores weights)) / sum_list weights"
    using False by (auto simp: calculate_weighted_average_def)
  show ?thesis unfolding eq using b pos by (simp add: pos_divide_le_eq)
qed

lemma score_transcript_Inr:
  assumes "score_transcript nlp rubric t = Inr rep"
  shows "criteria_scores rep
           = map (\<lambda>row. score_criterion nlp (preprocess_text t) (lower (preprocess_text t))
                          (Criterion row) (Description row) (parse_keywords (Keywords row))
                          (Weight row) (Min_Words row) (Max_Words row)) rubric"
    and "overall_score rep
           = round2 (calculate_weighted_average (map cr_score (criteria_scores rep))
                                               (map cr_weight (criteria_scores rep)))"
  using assms by (auto simp: score_transcript_def Let_def split: sum.splits)

text \<open>
  Claim C1. Whatever the transcript, the criterion and the similarity the processor reports,
  the score of \<open>_score_criterion\<close> lies in [0, 100]; and when \<open>score_transcript\<close> returns a
  report, each of its per-criterion scores lies in [0, 100], and so does its overall score
  for a rubric whose weights are not negative (the data model's weights are positive).
\<close>

theorem scores_in_range:
  "0 \<le> cr_score (score_criterion nlp transcript transcript_lower name description kws weight
                     min_words max_words)
   \<and> cr_score (score_criterion nlp transcript transcript_lower name description kws weight
                 min_words max_words) \<le> 100
   \<and> (\<forall>rep. score_transcript nlp rubric t = Inr rep \<longrightarrow>
          (\<forall>c\<in>set (criteria_scores rep). 0 \<le> cr_score c \<and> cr_score c \<le> 100)
        \<and> ((\<forall>row\<in>set rubric. 0 \<le> Weight row) \<longrightarrow>
              0 \<le> overall_score rep \<and> overall_score rep \<le> 100))"
proof (intro conjI allI impI)
  show "0 \<le> cr_score (score_criterion nlp transcript transcript_lower name description kws weight
                     min_words max_words)"
       "cr_score (score_criterion nlp transcript transcript_lower name description kws weight
                 min_words max_words) \<le> 100"
    using score_criterion_bounds by blast+
next
  fix rep assume r: "score_transcript nlp rubric t = Inr rep"
  note cs = score_transcript_Inr(1) [OF r] and ov = score_transcript_Inr(2) [OF r]
  show c: "\<forall>c\<in>set (criteria_scores rep). 0 \<le> cr_score c \<and> cr_score c \<le> 100"
    unfolding cs using score_criterion_bounds by auto
  show "0 \<le> overall_score rep" "overall_score rep \<le> 100"
    if wt: "\<forall>row\<in>set rubric. 0 \<le> Weight row"
  proof -
    have ws: "\<forall>w\<in>set (map cr_weight (criteria_scores rep)). 0 \<le> w"
      unfolding cs using wt by (auto simp: score_criterion_fields)
    have ss: "\<forall>s\<in>set (map cr_score (criteria_scores rep)). 0 \<le> s \<and> s \<le> 100"
      using c by auto
    from calculate_weighted_average_bounds [OF ss ws]
    have "0 \<le> overall_score rep \<and> overall_score rep \<le> 100"
      unfolding ov by (intro round2_bounds) auto
    then show "0 \<le> overall_score rep" "overall_score rep \<le> 100" by auto
  qed
qed

theorem scores_in_range_witness:
  "\<exists>rep. score_transcript \<lparr>word_tokenize = split, sent_tokenize = split, cosine = (\<lambda>a b. 1 / 2)\<rparr>
            [\<lparr>Criterion = ''Greeting'', Description = ''says hello'', Keywords = Some ''hello, name'',
              Weight = 2, Min_Words = 0, Max_Words = 999\<rparr>,
             \<lparr>Criterion = ''Goal'', Description = ''states a goal'', Keywords = None,
              Weight = 1, Min_Words = 5, Max_Words = 8\<rparr>]
            ''Hello my name is John'' = Inr rep
         \<and> 0 \<le> overall_score rep \<and> overall_score rep \<le> 100
         \<and> list_all (\<lambda>c. 0 \<le> cr_score c \<and> cr_score c \<le> 100) (criteria_scores rep)"
proof -
  let ?nlp = "\<lparr>word_tokenize = split, sent_tokenize = split, cosine = (\<lambda>a b. 1 / 2)\<rparr>"
  let ?rubric = "[\<lparr>Criterion = ''Greeting'', Description = ''says hello'', Keywords = Some ''hello, name'',
              Weight = 2, Min_Words = 0, Max_Words = 999\<rparr>,
             \<lparr>Criterion = ''Goal'', Description = ''states a goal'', Keywords = None,
              Weight = 1, Min_Words = 5, Max_Words = 8\<rparr>]"
  have q: "analyze_text_quality ?nlp (preprocess_text ''Hello my name is John'')
             \<noteq> Inl ZeroDivisionError"
    by code_simp
  then obtain rep where r: "score_transcript ?nlp ?rubric ''Hello my name is John'' = Inr rep"
    unfolding score_transcript_def Let_def
    by (cases "analyze_text_quality ?nlp (preprocess_text ''Hello my name is John'')")
       (auto simp: analyze_text_quality_def Let_def split: if_splits)
  have w: "\<forall>row\<in>set ?rubric. 0 \<le> Weight row" by simp
  note A = scores_in_range [of ?nlp "''x''" "''x''" "''n''" "''d''" "[]" 1 0 999 ?rubric "''Hello my name is John''",
             THEN conjunct2, THEN conjunct2, THEN spec, THEN mp, OF r]
  have "0 \<le> overall_score rep \<and> overall_score rep \<le> 100"
    using A [THEN conjunct2, THEN mp, OF w] .
  moreover have "list_all (\<lambda>c. 0 \<le> cr_score c \<and> cr_score c \<le> 100) (criteria_scores rep)"
    using A [THEN conjunct1] unfolding list_all_iff .
  ultimately show ?thesis using r by blast
qed

text \<open>The overall score is the rounded weighted average and is not clamped, so the bound
  on it rests on the weights being non-negative: with a negative weight it can leave the
  interval.\<close>

lemma overall_score_negative_weight:
  "\<exists>rep. score_transcript \<lparr>word_tokenize = split, sent_tokenize = split, cosine = (\<lambda>a b. 1 / 2)\<rparr>
            [\<lparr>Criterion = ''Greeting'', Description = ''says hello'', Keywords = Some ''hello, name'',
              Weight = 3, Min_Words = 0, Max_Words = 999\<rparr>,
             \<lparr>Criterion = ''Goal'', Description = ''states a goal'', Keywords = None,
              Weight = - 2, Min_Words = 5, Max_Words = 8\<rparr>]
            ''Hello my name is John'' = Inr rep
         \<and> overall_score rep = 110"
proof -
  let ?nlp = "\<lparr>word_tokenize = split, sent_tokenize = split, cosine = (\<lambda>a b. 1 / 2)\<rparr>"
  let ?rubric = "[\<lparr>Criterion = ''Greeting'', Description = ''says hello'', Keywords = Some ''hello, name'',
              Weight = 3, Min_Words = 0, Max_Words = 999\<rparr>,
             \<lparr>Criterion = ''Goal'', Description = ''states a goal'', Keywords = None,
              Weight = - 2, Min_Words = 5, Max_Words = 8\<rparr>]"
  have p: "preprocess_text ''Hello my name is John'' = ''Hello my name is John''" by code_simp
  have q: "analyze_text_quality ?nlp ''Hello my name is John'' \<noteq> Inl ZeroDivisionError"
    by code_simp
  then obtain rep where r: "score_transcript ?nlp ?rubric ''Hello my name is John'' = Inr rep"
    unfolding score_transcript_def Let_def p
    by (cases "analyze_text_quality ?nlp ''Hello my name is John''")
       (auto simp: analyze_text_quality_def Let_def split: if_splits)
  have l: "lower ''Hello my name is John'' = ''hello my name is john''" by code_simp
  have k: "parse_keywords (Some ''hello, name'') = [''hello'', ''name'']" by code_simp
  have k0: "parse_keywords None = []" by code_simp
  have s: "fst (semantic_score ?nlp ''Hello my name is John'' ''says hello'') = 50"
          "fst (semantic_score ?nlp ''Hello my name is John'' ''states a goal'') = 50"
    by (simp_all add: semantic_score_def calculate_similarity_def normalize_score_def
          normalize_score_in_def)
  have r1: "rule_based_score ''hello my name is john'' [''hello'', ''name''] 0 999 = 100"
    by code_simp
  have r2: "rule_based_score ''hello my name is john'' [] 5 8 = 65" by code_simp
  have d1: "rubric_driven_score ''hello my name is john'' [''hello'', ''name''] = 70"
    by code_simp
  have d2: "rubric_driven_score ''hello my name is john'' [] = 50" by code_simp
  have n1: "round2 (normalize_score 74) = 74" by code_simp
  have n2: "round2 (normalize_score 56) = 56" by code_simp
  have n3: "round2 110 = 110" by code_simp
  have "overall_score rep = 110"
    unfolding score_transcript_Inr(2) [OF r] score_transcript_Inr(1) [OF r]
    by (simp add: score_criterion_fields p l k k0 s r1 r2 d1 d2 n1 n2 n3
          calculate_weighted_average_def)
  with r show ?thesis by blast
qed

end
